theory Spec2Isabelle
  imports Complex_Main
begin

section \<open>Data model (types.ts)\<close>

text \<open>
  JavaScript numbers that hold quantities, prices in cents and timestamps are modelled as
  unbounded integers; the tax rate is an exact rational. Identifiers produced by
  \<^verbatim>\<open>nanoid\<close> (session, context and order ids) are natural numbers drawn from a counter.
  \<^verbatim>\<open>ItemType\<close> is a union of string literals and stays a string, because the service
  checks it at run time. The fields \<^verbatim>\<open>id\<close>, \<^verbatim>\<open>type\<close> and \<^verbatim>\<open>name\<close> of a cart item are
  \<open>item_id\<close>, \<open>item_type\<close> and \<open>item_name\<close> here. Every operation runs to its end before
  the next one starts: the model has one request in flight at a time.
\<close>

type_synonym ItemType = string

record CartItem =
  item_id :: string
  item_type :: ItemType
  item_name :: string
  price :: int
  quantity :: int

record Cart =
  sessionId :: nat
  items :: "CartItem list"
  subtotal :: int
  tax :: int
  total :: int

record CheckoutResult = Cart +
  orderId :: nat
  status :: string

text \<open>Event fields, in order: itemId, (itemType, name, price,) quantity, timestamp.\<close>

datatype CartEvent =
    ITEM_ADDED string ItemType string int int int
  | ITEM_REMOVED string int int
  | ITEM_UPDATED string int int

datatype error =
    ContextExpiredError nat
  | SessionNotFoundError nat
  | ItemNotFoundError string
  | InvalidQuantityError string
  | EmptyCartError
  | SessionCompletedError nat

section \<open>A JavaScript Map of cart items, in insertion order\<close>

text \<open>
  \<^verbatim>\<open>Map<string, CartItem>\<close> iterates in insertion order, and the code mutates the stored
  object in place, which keeps its position. The map is a list of items with pairwise
  different ids: \<^verbatim>\<open>get\<close> finds the item, an in-place write of the quantity maps over the
  list, \<^verbatim>\<open>set\<close> of an absent key appends, \<^verbatim>\<open>delete\<close> filters.
\<close>

definition get_item :: "string \<Rightarrow> CartItem list \<Rightarrow> CartItem option" where
  "get_item k its = find (\<lambda>i. item_id i = k) its"

definition set_quantity :: "string \<Rightarrow> int \<Rightarrow> CartItem list \<Rightarrow> CartItem list" where
  "set_quantity k q its = map (\<lambda>i. if item_id i = k then i\<lparr>quantity := q\<rparr> else i) its"

definition delete_item :: "string \<Rightarrow> CartItem list \<Rightarrow> CartItem list" where
  "delete_item k its = filter (\<lambda>i. item_id i \<noteq> k) its"

section \<open>The projection fold (state-manager.ts, buildCartFromEvents)\<close>

fun apply_event :: "CartItem list \<Rightarrow> CartEvent \<Rightarrow> CartItem list" where
  "apply_event itemsMap (ITEM_ADDED k ty nm pr q ts) =
     (case get_item k itemsMap of
        Some existing \<Rightarrow> set_quantity k (quantity existing + q) itemsMap
      | None \<Rightarrow> itemsMap @ [\<lparr>item_id = k, item_type = ty, item_name = nm, price = pr, quantity = q\<rparr>])"
| "apply_event itemsMap (ITEM_REMOVED k q ts) =
     (case get_item k itemsMap of
        Some existing \<Rightarrow>
          (if q \<ge> quantity existing then delete_item k itemsMap
           else set_quantity k (quantity existing - q) itemsMap)
      | None \<Rightarrow> itemsMap)"
| "apply_event itemsMap (ITEM_UPDATED k q ts) =
     (case get_item k itemsMap of
        Some existing \<Rightarrow> set_quantity k q itemsMap
      | None \<Rightarrow> itemsMap)"

definition fold_items :: "CartEvent list \<Rightarrow> CartItem list" where
  "fold_items evs = foldl apply_event [] evs"

text \<open>\<^verbatim>\<open>Math.round\<close> rounds to the nearest integer, halves towards plus infinity.\<close>

definition Math_round :: "rat \<Rightarrow> int" where
  "Math_round x = \<lfloor>x + 1 / 2\<rfloor>"

definition buildCartFromEvents :: "rat \<Rightarrow> nat \<Rightarrow> CartEvent list \<Rightarrow> Cart" where
  "buildCartFromEvents taxRate sid evs =
     (let its = fold_items evs;
          sub = foldl (\<lambda>sum item. sum + price item * quantity item) 0 its;
          tx = Math_round (of_int sub * taxRate)
      in \<lparr>sessionId = sid, items = its, subtotal = sub, tax = tx, total = sub + tx\<rparr>)"




section \<open>The two stores and their environment\<close>

text \<open>
  \<^verbatim>\<open>ExperienceSession\<close> without its \<^verbatim>\<open>lastActivity\<close> stamp: only the timer-driven
  session cleanup reads it, and no operation modelled here depends on it.
\<close>

record ExperienceSession =
  session_id :: nat
  sfContextId :: "nat option"
  events :: "CartEvent list"
  checkedOut :: bool

record SalesforceCartContext =
  contextId :: nat
  ctx_items :: "CartItem list"
  createdAt :: int
  lastActivity :: int

text \<open>
  The state that the operations read and write: the session map and tax rate of the
  \<^verbatim>\<open>CartStateManager\<close>, the context map and TTL of the \<^verbatim>\<open>SalesforceCartClient\<close>, and the
  environment. \<open>clock w k\<close> is the value the \<open>k\<close>-th call of \<^verbatim>\<open>Date.now()\<close> returns
  (counting the calls modelled here), \<open>tick\<close> counts the calls made so far, and \<open>nano\<close>
  is the counter behind \<^verbatim>\<open>nanoid\<close>, which therefore never issues an id twice.
\<close>

record world =
  sessions :: "nat \<rightharpoonup> ExperienceSession"
  taxRate :: rat
  contexts :: "nat \<rightharpoonup> SalesforceCartContext"
  contextTTL :: int
  clock :: "nat \<Rightarrow> int"
  tick :: nat
  nano :: nat

text \<open>A call either throws (\<open>Inl\<close>) or returns (\<open>Inr\<close>); in both cases the writes it
  made before stay in the state.\<close>

type_synonym 'a call = "world \<Rightarrow> (error + 'a) \<times> world"

definition returnE :: "'a \<Rightarrow> 'a call" where
  "returnE x w = (Inr x, w)"

definition throw :: "error \<Rightarrow> 'a call" where
  "throw e w = (Inl e, w)"

definition bindE :: "'a call \<Rightarrow> ('a \<Rightarrow> 'b call) \<Rightarrow> 'b call" where
  "bindE m f w = (case m w of (Inl e, w1) \<Rightarrow> (Inl e, w1) | (Inr x, w1) \<Rightarrow> f x w1)"

definition liftE :: "(world \<Rightarrow> 'a \<times> world) \<Rightarrow> 'a call" where
  "liftE m w = (case m w of (x, w1) \<Rightarrow> (Inr x, w1))"

definition Date_now :: "world \<Rightarrow> int \<times> world" where
  "Date_now w = (clock w (tick w), w\<lparr>tick := Suc (tick w)\<rparr>)"

definition nanoid :: "world \<Rightarrow> nat \<times> world" where
  "nanoid w = (nano w, w\<lparr>nano := Suc (nano w)\<rparr>)"

text \<open>The state after both constructors have run (app.ts, createApp).\<close>

definition createApp :: "int \<Rightarrow> rat \<Rightarrow> (nat \<Rightarrow> int) \<Rightarrow> world" where
  "createApp ttl rate clk =
     \<lparr>sessions = Map.empty, taxRate = rate, contexts = Map.empty, contextTTL = ttl,
      clock = clk, tick = 0, nano = 0\<rparr>"

section \<open>CartStateManager (state-manager.ts)\<close>

definition createSession :: "world \<Rightarrow> nat \<times> world" where
  "createSession w =
     (case nanoid w of (sid, w1) \<Rightarrow>
        (sid, w1\<lparr>sessions := (sessions w1)(sid \<mapsto>
           \<lparr>session_id = sid, sfContextId = None, events = [], checkedOut = False\<rparr>)\<rparr>))"

definition getSession :: "nat \<Rightarrow> ExperienceSession call" where
  "getSession sid w =
     (case sessions w sid of
        None \<Rightarrow> (Inl (SessionNotFoundError sid), w)
      | Some session \<Rightarrow> (Inr session, w))"

definition put_session :: "nat \<Rightarrow> ExperienceSession \<Rightarrow> unit call" where
  "put_session sid session w = (Inr (), w\<lparr>sessions := (sessions w)(sid \<mapsto> session)\<rparr>)"

definition updateSfContextId :: "nat \<Rightarrow> nat \<Rightarrow> unit call" where
  "updateSfContextId sid c =
     bindE (getSession sid) (\<lambda>session. put_session sid (session\<lparr>sfContextId := Some c\<rparr>))"

definition appendEvent :: "nat \<Rightarrow> CartEvent \<Rightarrow> unit call" where
  "appendEvent sid event =
     bindE (getSession sid) (\<lambda>session. put_session sid (session\<lparr>events := events session @ [event]\<rparr>))"

definition markCheckedOut :: "nat \<Rightarrow> unit call" where
  "markCheckedOut sid =
     bindE (getSession sid) (\<lambda>session. put_session sid (session\<lparr>checkedOut := True\<rparr>))"

definition getEvents :: "nat \<Rightarrow> CartEvent list call" where
  "getEvents sid = bindE (getSession sid) (\<lambda>session. returnE (events session))"

definition isCheckedOut :: "nat \<Rightarrow> bool call" where
  "isCheckedOut sid = bindE (getSession sid) (\<lambda>session. returnE (checkedOut session))"

section \<open>SalesforceCartClient, the backend test double (salesforce-client.ts)\<close>

definition createContext :: "world \<Rightarrow> nat \<times> world" where
  "createContext w =
     (case nanoid w of (c, w1) \<Rightarrow>
      case Date_now w1 of (t1, w2) \<Rightarrow>
      case Date_now w2 of (t2, w3) \<Rightarrow>
        (c, w3\<lparr>contexts := (contexts w3)(c \<mapsto>
           \<lparr>contextId = c, ctx_items = [], createdAt = t1, lastActivity = t2\<rparr>)\<rparr>))"

definition getValidContext :: "nat \<Rightarrow> SalesforceCartContext call" where
  "getValidContext c w =
     (case contexts w c of
        None \<Rightarrow> (Inl (ContextExpiredError c), w)
      | Some context \<Rightarrow>
          (case Date_now w of (now, w1) \<Rightarrow>
             if now - lastActivity context > contextTTL w1
             then (Inl (ContextExpiredError c), w1\<lparr>contexts := (contexts w1)(c := None)\<rparr>)
             else (Inr context, w1)))"

text \<open>The context object is mutated in place; the model writes it back under its handle,
  with the new items and the refreshed idle clock.\<close>

definition touch_context :: "nat \<Rightarrow> SalesforceCartContext \<Rightarrow> CartItem list \<Rightarrow> unit call" where
  "touch_context c context its w =
     (case Date_now w of (now, w1) \<Rightarrow>
        (Inr (), w1\<lparr>contexts := (contexts w1)(c \<mapsto> context\<lparr>ctx_items := its, lastActivity := now\<rparr>)\<rparr>))"

definition sf_addItem :: "nat \<Rightarrow> CartItem \<Rightarrow> unit call" where
  "sf_addItem c item =
     bindE (getValidContext c) (\<lambda>context.
       case get_item (item_id item) (ctx_items context) of
         Some existingItem \<Rightarrow>
           touch_context c context
             (set_quantity (item_id item) (quantity existingItem + quantity item) (ctx_items context))
       | None \<Rightarrow> touch_context c context (ctx_items context @ [item]))"

definition sf_removeItem :: "nat \<Rightarrow> string \<Rightarrow> int option \<Rightarrow> unit call" where
  "sf_removeItem c itemId qty =
     bindE (getValidContext c) (\<lambda>context.
       case get_item itemId (ctx_items context) of
         None \<Rightarrow> throw (ItemNotFoundError itemId)
       | Some item \<Rightarrow>
           (if qty = None \<or> the qty \<ge> quantity item
            then touch_context c context (delete_item itemId (ctx_items context))
            else touch_context c context
                   (set_quantity itemId (quantity item - the qty) (ctx_items context))))"

definition sf_updateItem :: "nat \<Rightarrow> string \<Rightarrow> int \<Rightarrow> unit call" where
  "sf_updateItem c itemId qty =
     bindE (getValidContext c) (\<lambda>context.
       case get_item itemId (ctx_items context) of
         None \<Rightarrow> throw (ItemNotFoundError itemId)
       | Some item \<Rightarrow> touch_context c context (set_quantity itemId qty (ctx_items context)))"

definition sf_checkout :: "nat \<Rightarrow> nat \<Rightarrow> nat call" where
  "sf_checkout c sid =
     bindE (getValidContext c) (\<lambda>context.
       bindE (touch_context c context (ctx_items context)) (\<lambda>_. liftE nanoid))"

section \<open>CartService (cart-service.ts)\<close>

record AddItemRequest =
  req_itemId :: string
  req_type :: ItemType
  req_name :: string
  req_price :: int
  req_quantity :: int

definition getCart :: "nat \<Rightarrow> Cart call" where
  "getCart sid =
     bindE (getSession sid) (\<lambda>_.
       bindE (getEvents sid) (\<lambda>evs w. (Inr (buildCartFromEvents (taxRate w) sid evs), w)))"

definition ensureSfContext :: "nat \<Rightarrow> nat call" where
  "ensureSfContext sid =
     bindE (getSession sid) (\<lambda>session.
       case sfContextId session of
         None \<Rightarrow>
           bindE (liftE createContext) (\<lambda>c.
             bindE (updateSfContextId sid c) (\<lambda>_. returnE c))
       | Some c \<Rightarrow> returnE c)"

text \<open>The try/catch around the remove and update steps of the replay: an item-not-found
  error is dropped, every other error is thrown again.\<close>

definition catch_ItemNotFound :: "unit call \<Rightarrow> unit call" where
  "catch_ItemNotFound m w =
     (case m w of
        (Inl e, w1) \<Rightarrow> (case e of ItemNotFoundError k \<Rightarrow> (Inr (), w1) | _ \<Rightarrow> (Inl e, w1))
      | (Inr x, w1) \<Rightarrow> (Inr x, w1))"

text \<open>The body of the replay loop: the switch on the event type.\<close>

fun replay_event :: "nat \<Rightarrow> CartEvent \<Rightarrow> unit call" where
  "replay_event c (ITEM_ADDED k ty nm pr q ts) =
     sf_addItem c \<lparr>item_id = k, item_type = ty, item_name = nm, price = pr, quantity = q\<rparr>"
| "replay_event c (ITEM_REMOVED k q ts) = catch_ItemNotFound (sf_removeItem c k (Some q))"
| "replay_event c (ITEM_UPDATED k q ts) = catch_ItemNotFound (sf_updateItem c k q)"

fun replay_loop :: "nat \<Rightarrow> CartEvent list \<Rightarrow> unit call" where
  "replay_loop c [] w = (Inr (), w)"
| "replay_loop c (event # rest) w =
     (case replay_event c event w of
        (Inl e, w1) \<Rightarrow> (Inl e, w1)
      | (Inr _, w1) \<Rightarrow> replay_loop c rest w1)"

definition replayEvents :: "nat \<Rightarrow> unit call" where
  "replayEvents sid =
     bindE (liftE createContext) (\<lambda>newContextId.
       bindE (updateSfContextId sid newContextId) (\<lambda>_.
         bindE (getEvents sid) (\<lambda>evs. replay_loop newContextId evs)))"

definition executeWithReplay :: "nat \<Rightarrow> 'a call \<Rightarrow> 'a call" where
  "executeWithReplay sid operation w =
     (case operation w of
        (Inr x, w1) \<Rightarrow> (Inr x, w1)
      | (Inl e, w1) \<Rightarrow>
          (case e of
             ContextExpiredError c \<Rightarrow> bindE (replayEvents sid) (\<lambda>_. operation) w1
           | _ \<Rightarrow> (Inl e, w1)))"

definition validateAddItemRequest :: "AddItemRequest \<Rightarrow> error option" where
  "validateAddItemRequest request =
     (if req_itemId request = [] then Some (InvalidQuantityError ''Item ID is required'')
      else if req_type request = [] \<or> req_type request \<notin> set [''DEVICE'', ''PLAN'', ''ADDON'']
        then Some (InvalidQuantityError ''Invalid item type'')
      else if req_name request = [] then Some (InvalidQuantityError ''Item name is required'')
      else if req_price request < 0
        then Some (InvalidQuantityError ''Price must be a non-negative number'')
      else if req_quantity request \<le> 0
        then Some (InvalidQuantityError ''Quantity must be a positive number'')
      else None)"

definition addItem :: "nat \<Rightarrow> AddItemRequest \<Rightarrow> Cart call" where
  "addItem sid request =
     (case validateAddItemRequest request of
        Some e \<Rightarrow> throw e
      | None \<Rightarrow>
          bindE (isCheckedOut sid) (\<lambda>done.
            if done then throw (SessionCompletedError sid)
            else
              bindE (executeWithReplay sid
                       (bindE (ensureSfContext sid) (\<lambda>c.
                          sf_addItem c \<lparr>item_id = req_itemId request, item_type = req_type request,
                            item_name = req_name request, price = req_price request,
                            quantity = req_quantity request\<rparr>))) (\<lambda>_.
              bindE (liftE Date_now) (\<lambda>ts.
              bindE (appendEvent sid
                       (ITEM_ADDED (req_itemId request) (req_type request) (req_name request)
                          (req_price request) (req_quantity request) ts)) (\<lambda>_.
              getCart sid)))))"

definition removeItem :: "nat \<Rightarrow> string \<Rightarrow> int option \<Rightarrow> Cart call" where
  "removeItem sid itemId qty =
     (if qty \<noteq> None \<and> the qty \<le> 0 then throw (InvalidQuantityError ''Quantity must be positive'')
      else
        bindE (isCheckedOut sid) (\<lambda>done.
          if done then throw (SessionCompletedError sid)
          else
            bindE (getCart sid) (\<lambda>currentCart.
              case get_item itemId (items currentCart) of
                None \<Rightarrow> throw (ItemNotFoundError itemId)
              | Some existingItem \<Rightarrow>
                  (let quantityToRemove =
                         (case qty of None \<Rightarrow> quantity existingItem
                          | Some q \<Rightarrow> min q (quantity existingItem))
                   in bindE (executeWithReplay sid
                               (bindE (ensureSfContext sid) (\<lambda>c.
                                  sf_removeItem c itemId (Some quantityToRemove)))) (\<lambda>_.
                      bindE (liftE Date_now) (\<lambda>ts.
                      bindE (appendEvent sid (ITEM_REMOVED itemId quantityToRemove ts)) (\<lambda>_.
                      getCart sid)))))))"

definition updateItem :: "nat \<Rightarrow> string \<Rightarrow> int \<Rightarrow> Cart call" where
  "updateItem sid itemId qty =
     (if qty \<le> 0 then throw (InvalidQuantityError ''Quantity must be positive'')
      else
        bindE (isCheckedOut sid) (\<lambda>done.
          if done then throw (SessionCompletedError sid)
          else
            bindE (getCart sid) (\<lambda>currentCart.
              case get_item itemId (items currentCart) of
                None \<Rightarrow> throw (ItemNotFoundError itemId)
              | Some existingItem \<Rightarrow>
                  bindE (executeWithReplay sid
                           (bindE (ensureSfContext sid) (\<lambda>c. sf_updateItem c itemId qty))) (\<lambda>_.
                  bindE (liftE Date_now) (\<lambda>ts.
                  bindE (appendEvent sid (ITEM_UPDATED itemId qty ts)) (\<lambda>_.
                  getCart sid))))))"

definition checkout :: "nat \<Rightarrow> CheckoutResult call" where
  "checkout sid =
     bindE (isCheckedOut sid) (\<lambda>done.
       if done then throw (SessionCompletedError sid)
       else
         bindE (getCart sid) (\<lambda>currentCart.
           if length (items currentCart) = 0 then throw EmptyCartError
           else
             bindE (executeWithReplay sid
                      (bindE (ensureSfContext sid) (\<lambda>c. sf_checkout c sid))) (\<lambda>order.
             bindE (markCheckedOut sid) (\<lambda>_.
             returnE \<lparr>sessionId = sid, items = items currentCart, subtotal = subtotal currentCart,
               tax = tax currentCart, total = total currentCart,
               orderId = order, status = ''COMPLETED''\<rparr>))))"

section \<open>Sequences of client operations\<close>

datatype operation =
    AddItem AddItemRequest
  | RemoveItem string "int option"
  | UpdateItem string int

fun perform :: "nat \<Rightarrow> operation \<Rightarrow> Cart call" where
  "perform sid (AddItem request) = addItem sid request"
| "perform sid (RemoveItem itemId qty) = removeItem sid itemId qty"
| "perform sid (UpdateItem itemId qty) = updateItem sid itemId qty"


section \<open>Vocabulary of the proofs\<close>

text \<open>What the service decides before it touches the backend, computed from the session's
  completed flag and the current projection: the error it throws, or the event it is going
  to record (with a timestamp still to be filled in). The order of the checks is the order
  of the statements in \<^verbatim>\<open>addItem\<close>, \<^verbatim>\<open>removeItem\<close> and \<^verbatim>\<open>updateItem\<close>; lemma
  \<open>perform_resolve\<close> below proves that the three methods factor through it.\<close>

definition resolve :: "bool \<Rightarrow> nat \<Rightarrow> CartItem list \<Rightarrow> operation \<Rightarrow> error + CartEvent" where
  "resolve completed sid its op =
     (case op of
        AddItem request \<Rightarrow>
          (case validateAddItemRequest request of
             Some e \<Rightarrow> Inl e
           | None \<Rightarrow>
               if completed then Inl (SessionCompletedError sid)
               else Inr (ITEM_ADDED (req_itemId request) (req_type request) (req_name request)
                           (req_price request) (req_quantity request) 0))
      | RemoveItem itemId qty \<Rightarrow>
          (if qty \<noteq> None \<and> the qty \<le> 0 then Inl (InvalidQuantityError ''Quantity must be positive'')
           else if completed then Inl (SessionCompletedError sid)
           else (case get_item itemId its of
                   None \<Rightarrow> Inl (ItemNotFoundError itemId)
                 | Some existingItem \<Rightarrow>
                     Inr (ITEM_REMOVED itemId
                            (case qty of None \<Rightarrow> quantity existingItem
                             | Some q \<Rightarrow> min q (quantity existingItem)) 0)))
      | UpdateItem itemId qty \<Rightarrow>
          (if qty \<le> 0 then Inl (InvalidQuantityError ''Quantity must be positive'')
           else if completed then Inl (SessionCompletedError sid)
           else (case get_item itemId its of
                   None \<Rightarrow> Inl (ItemNotFoundError itemId)
                 | Some existingItem \<Rightarrow> Inr (ITEM_UPDATED itemId qty 0))))"

text \<open>The same event with the timestamp read when it is recorded.\<close>

fun stamp :: "int \<Rightarrow> CartEvent \<Rightarrow> CartEvent" where
  "stamp t (ITEM_ADDED k ty nm pr q ts) = ITEM_ADDED k ty nm pr q t"
| "stamp t (ITEM_REMOVED k q ts) = ITEM_REMOVED k q t"
| "stamp t (ITEM_UPDATED k q ts) = ITEM_UPDATED k q t"

text \<open>The backend mutation that belongs to an event, the closure that the service hands to
  \<^verbatim>\<open>executeWithReplay\<close> for it, and the statements that follow a successful call.\<close>

fun backend_call :: "nat \<Rightarrow> CartEvent \<Rightarrow> unit call" where
  "backend_call c (ITEM_ADDED k ty nm pr q ts) =
     sf_addItem c \<lparr>item_id = k, item_type = ty, item_name = nm, price = pr, quantity = q\<rparr>"
| "backend_call c (ITEM_REMOVED k q ts) = sf_removeItem c k (Some q)"
| "backend_call c (ITEM_UPDATED k q ts) = sf_updateItem c k q"

definition attempt :: "nat \<Rightarrow> CartEvent \<Rightarrow> unit call" where
  "attempt sid ev = bindE (ensureSfContext sid) (\<lambda>c. backend_call c ev)"

definition commit :: "nat \<Rightarrow> CartEvent \<Rightarrow> Cart call" where
  "commit sid ev =
     bindE (liftE Date_now) (\<lambda>ts. bindE (appendEvent sid (stamp ts ev)) (\<lambda>_. getCart sid))"

text \<open>Whether the backend can apply an event to a given item map, and the item it names.\<close>

fun applicable :: "CartEvent \<Rightarrow> CartItem list \<Rightarrow> bool" where
  "applicable (ITEM_ADDED k ty nm pr q ts) its = True"
| "applicable (ITEM_REMOVED k q ts) its = (get_item k its \<noteq> None)"
| "applicable (ITEM_UPDATED k q ts) its = (get_item k its \<noteq> None)"

fun event_item :: "CartEvent \<Rightarrow> string" where
  "event_item (ITEM_ADDED k ty nm pr q ts) = k"
| "event_item (ITEM_REMOVED k q ts) = k"
| "event_item (ITEM_UPDATED k q ts) = k"

definition outcome_ok :: "CartEvent \<Rightarrow> CartItem list \<Rightarrow> (error + unit) \<Rightarrow> bool" where
  "outcome_ok ev its r \<longleftrightarrow>
     (if applicable ev its then r = Inr () else r = Inl (ItemNotFoundError (event_item ev)))"

text \<open>The errors that the replay drops: item-not-found, on a remove or an update step.\<close>

fun not_found :: "error \<Rightarrow> bool" where
  "not_found (ItemNotFoundError k) = True"
| "not_found _ = False"

fun swallowed :: "CartEvent \<Rightarrow> error \<Rightarrow> bool" where
  "swallowed (ITEM_ADDED k ty nm pr q ts) e = False"
| "swallowed (ITEM_REMOVED k q ts) e = not_found e"
| "swallowed (ITEM_UPDATED k q ts) e = not_found e"

text \<open>The context-expired signal, on errors and on results.\<close>

fun expired_error :: "error \<Rightarrow> bool" where
  "expired_error (ContextExpiredError c) = True"
| "expired_error _ = False"

fun is_expired :: "error + 'a \<Rightarrow> bool" where
  "is_expired (Inl e) = expired_error e"
| "is_expired (Inr x) = False"

text \<open>Frame conditions: a step is \<open>stable\<close> when it leaves every session's log and
  completed flag, the tax rate, the TTL and the clock as they were.\<close>

definition session_view :: "world \<Rightarrow> nat \<Rightarrow> (CartEvent list \<times> bool) option" where
  "session_view w sid = map_option (\<lambda>s. (events s, checkedOut s)) (sessions w sid)"

definition stable :: "world \<Rightarrow> world \<Rightarrow> bool" where
  "stable w w' \<longleftrightarrow>
     (\<forall>sid. session_view w' sid = session_view w sid) \<and> taxRate w' = taxRate w \<and>
     contextTTL w' = contextTTL w \<and> clock w' = clock w"

definition preserves :: "'a call \<Rightarrow> bool" where
  "preserves m \<longleftrightarrow> (\<forall>w r w'. m w = (r, w') \<longrightarrow> stable w w')"

text \<open>The handle of a session, if it has one and the backend still knows it, holds exactly
  the given items; a session without a handle has none.\<close>

definition sync_with :: "world \<Rightarrow> nat \<Rightarrow> CartItem list \<Rightarrow> bool" where
  "sync_with w sid its \<longleftrightarrow>
     (\<exists>s. sessions w sid = Some s \<and>
        (case sfContextId s of
           None \<Rightarrow> its = []
         | Some c \<Rightarrow> (\<forall>ctx. contexts w c = Some ctx \<longrightarrow> ctx_items ctx = its)))"



section \<open>Scenarios\<close>

text \<open>The configuration of the test suite (a TTL of 100 ms, 10 percent tax) with one session
  created, which gets the id 0, under a given clock; and three requests.\<close>

definition scenario_world :: "(nat \<Rightarrow> int) \<Rightarrow> world" where
  "scenario_world clk = snd (createSession (createApp 100 (1 / 10) clk))"

definition item_A :: AddItemRequest where
  "item_A = \<lparr>req_itemId = ''A'', req_type = ''DEVICE'', req_name = ''Phone'',
     req_price = 100, req_quantity = 2\<rparr>"

definition item_B :: AddItemRequest where
  "item_B = \<lparr>req_itemId = ''B'', req_type = ''PLAN'', req_name = ''Plan'',
     req_price = 50, req_quantity = 1\<rparr>"


text \<open>Three clocks: one that stands still, one that jumps past the TTL after the first
  operation (ticks 0 to 4), and one that jumps a second time while the second operation
  recovers (ticks 5 to 9 are its first attempt and the replay).\<close>

definition quiet :: "nat \<Rightarrow> int" where
  "quiet k = 0"

definition one_gap :: "nat \<Rightarrow> int" where
  "one_gap k = (if k < 5 then 0 else 1000)"

definition two_gaps :: "nat \<Rightarrow> int" where
  "two_gaps k = (if k < 5 then 0 else if k < 10 then 1000 else 2000)"



text \<open>The session after one successful add, the same session after a checkout, and the
  event that a second add is going to record.\<close>

definition after_A :: "(nat \<Rightarrow> int) \<Rightarrow> world" where
  "after_A clk = snd (addItem 0 item_A (scenario_world clk))"

definition checked_out :: world where
  "checked_out = snd (checkout 0 (after_A quiet))"

definition event_B :: CartEvent where
  "event_B = ITEM_ADDED ''B'' ''PLAN'' ''Plan'' 50 1 0"

section \<open>Properties of the item map and of the fold\<close>


lemma get_item_None_iff: "get_item k its = None \<longleftrightarrow> k \<notin> item_id ` set its"
  by (induction its) (auto simp: get_item_def)

lemma ids_set_quantity: "map item_id (set_quantity k q its) = map item_id its"
  by (induction its) (auto simp: set_quantity_def)

lemma ids_delete_item: "map item_id (delete_item k its) = filter (\<lambda>x. x \<noteq> k) (map item_id its)"
  by (induction its) (auto simp: delete_item_def)

lemma get_item_delete_same: "get_item k (delete_item k its) = None"
  by (auto simp: get_item_None_iff delete_item_def)



lemma fold_items_snoc: "fold_items (evs @ [e]) = apply_event (fold_items evs) e"
  by (simp add: fold_items_def)

lemma distinct_apply_event:
  "distinct (map item_id its) \<Longrightarrow> distinct (map item_id (apply_event its e))"
proof (cases e)
  case (ITEM_ADDED k ty nm pr q ts)
  then show "distinct (map item_id its) \<Longrightarrow> ?thesis"
    by (auto simp: ids_set_quantity get_item_None_iff split: option.splits)
next
  case (ITEM_REMOVED k q ts)
  then show "distinct (map item_id its) \<Longrightarrow> ?thesis"
    by (auto simp: ids_set_quantity ids_delete_item split: option.splits)
next
  case (ITEM_UPDATED k q ts)
  then show "distinct (map item_id its) \<Longrightarrow> ?thesis"
    by (auto simp: ids_set_quantity split: option.splits)
qed

lemma distinct_fold_items: "distinct (map item_id (fold_items evs))"
  by (induction evs rule: rev_induct) (simp_all add: fold_items_def distinct_apply_event)







lemma items_buildCart [simp]: "items (buildCartFromEvents r sid evs) = fold_items evs"
  by (simp add: buildCartFromEvents_def Let_def)


section \<open>Frame lemmas\<close>

lemma stable_refl [simp]: "stable w w"
  by (simp add: stable_def)

lemma stable_trans: "stable w w1 \<Longrightarrow> stable w1 w2 \<Longrightarrow> stable w w2"
  by (simp add: stable_def)

lemma preservesD: "preserves m \<Longrightarrow> m w = (r, w') \<Longrightarrow> stable w w'"
  by (auto simp: preserves_def)

lemma preserves_returnE [simp]: "preserves (returnE x)"
  by (simp add: preserves_def returnE_def)

lemma preserves_throw [simp]: "preserves (throw e)"
  by (simp add: preserves_def throw_def)

lemma preserves_bindE:
  assumes "preserves m" and "\<And>x. preserves (f x)"
  shows "preserves (bindE m f)"
  unfolding preserves_def
proof (intro allI impI)
  fix w r w'
  assume run: "bindE m f w = (r, w')"
  obtain r1 w1 where m: "m w = (r1, w1)" by (cases "m w")
  then have s1: "stable w w1" using assms(1) by (rule preservesD [rotated])
  show "stable w w'"
  proof (cases r1)
    case (Inl e)
    with run m have "w' = w1" by (simp add: bindE_def)
    with s1 show ?thesis by simp
  next
    case (Inr x)
    with run m have "f x w1 = (r, w')" by (simp add: bindE_def)
    then have "stable w1 w'" using assms(2) by (rule preservesD [rotated])
    with s1 show ?thesis by (rule stable_trans)
  qed
qed

lemma stable_tick [simp]: "stable w (w\<lparr>tick := n\<rparr>)"
  by (simp add: stable_def session_view_def)

lemma stable_nano [simp]: "stable w (w\<lparr>nano := n\<rparr>)"
  by (simp add: stable_def session_view_def)

lemma stable_contexts: "stable w w1 \<Longrightarrow> stable w (w1\<lparr>contexts := m\<rparr>)"
  by (simp add: stable_def session_view_def)

lemma preserves_Date_now [simp]: "preserves (liftE Date_now)"
  by (auto simp: preserves_def liftE_def Date_now_def)

lemma preserves_nanoid [simp]: "preserves (liftE nanoid)"
  by (auto simp: preserves_def liftE_def nanoid_def)

lemma preserves_createContext [simp]: "preserves (liftE createContext)"
  by (auto simp: preserves_def liftE_def createContext_def nanoid_def Date_now_def stable_def session_view_def)

lemma preserves_getSession [simp]: "preserves (getSession sid)"
  by (auto simp: preserves_def getSession_def split: option.splits)

lemma preserves_getEvents [simp]: "preserves (getEvents sid)"
  by (simp add: getEvents_def preserves_bindE)

lemma preserves_isCheckedOut [simp]: "preserves (isCheckedOut sid)"
  by (simp add: isCheckedOut_def preserves_bindE)

lemma preserves_read [simp]: "preserves (\<lambda>w. (Inr (f w), w))"
  by (simp add: preserves_def)

lemma preserves_getCart [simp]: "preserves (getCart sid)"
  unfolding getCart_def
  by (intro preserves_bindE) simp_all

lemma preserves_updateSfContextId [simp]: "preserves (updateSfContextId sid c)"
  by (auto simp: preserves_def updateSfContextId_def bindE_def getSession_def put_session_def
      stable_def session_view_def split: option.splits)

lemma preserves_getValidContext [simp]: "preserves (getValidContext c)"
  by (auto simp: preserves_def getValidContext_def Date_now_def stable_def session_view_def
      split: option.splits if_splits)

lemma preserves_touch_context [simp]: "preserves (touch_context c ctx its)"
  by (auto simp: preserves_def touch_context_def Date_now_def stable_def session_view_def)

lemma preserves_sf_addItem [simp]: "preserves (sf_addItem c item)"
  unfolding sf_addItem_def by (intro preserves_bindE) (auto split: option.splits)

lemma preserves_sf_removeItem [simp]: "preserves (sf_removeItem c k q)"
  unfolding sf_removeItem_def by (intro preserves_bindE) (auto split: option.splits)

lemma preserves_sf_updateItem [simp]: "preserves (sf_updateItem c k q)"
  unfolding sf_updateItem_def by (intro preserves_bindE) (auto split: option.splits)

lemma preserves_sf_checkout [simp]: "preserves (sf_checkout c sid)"
  unfolding sf_checkout_def by (intro preserves_bindE) auto

lemma preserves_backend_call [simp]: "preserves (backend_call c ev)"
  by (cases ev) simp_all

lemma preserves_ensureSfContext [simp]: "preserves (ensureSfContext sid)"
  unfolding ensureSfContext_def
  by (intro preserves_bindE) (auto split: option.splits intro!: preserves_bindE)

lemma preserves_catch [simp]: "preserves m \<Longrightarrow> preserves (catch_ItemNotFound m)"
  by (auto simp: preserves_def catch_ItemNotFound_def split: prod.splits sum.splits error.splits)

lemma preserves_replay_event [simp]: "preserves (replay_event c ev)"
  by (cases ev) simp_all

lemma replay_loop_stable: "replay_loop c evs w = (r, w') \<Longrightarrow> stable w w'"
proof (induction evs arbitrary: w)
  case Nil
  then show ?case by simp
next
  case (Cons ev evs)
  obtain r1 w1 where step: "replay_event c ev w = (r1, w1)" by (cases "replay_event c ev w")
  then have s1: "stable w w1" using preserves_replay_event by (rule preservesD [rotated])
  show ?case
  proof (cases r1)
    case (Inl e)
    with Cons.prems step s1 show ?thesis by simp
  next
    case (Inr u)
    with Cons.prems step have "replay_loop c evs w1 = (r, w')" by simp
    then have "stable w1 w'" by (rule Cons.IH)
    with s1 show ?thesis by (rule stable_trans)
  qed
qed

lemma preserves_replay_loop [simp]: "preserves (replay_loop c evs)"
  by (auto simp: preserves_def dest: replay_loop_stable)

lemma preserves_replayEvents [simp]: "preserves (replayEvents sid)"
  unfolding replayEvents_def by (intro preserves_bindE) auto

lemma preserves_executeWithReplay:
  assumes "preserves operation"
  shows "preserves (executeWithReplay sid operation)"
  unfolding preserves_def
proof (intro allI impI)
  fix w r w'
  assume run: "executeWithReplay sid operation w = (r, w')"
  obtain r1 w1 where first: "operation w = (r1, w1)" by (cases "operation w")
  then have s1: "stable w w1" using assms by (rule preservesD [rotated])
  have retry: "preserves (bindE (replayEvents sid) (\<lambda>_. operation))"
    by (intro preserves_bindE) (simp_all add: assms)
  show "stable w w'"
  proof (cases "is_expired r1")
    case True
    with run first have "bindE (replayEvents sid) (\<lambda>_. operation) w1 = (r, w')"
      by (auto simp: executeWithReplay_def split: sum.splits error.splits)
    then have "stable w1 w'" using retry by (rule preservesD [rotated])
    with s1 show ?thesis by (rule stable_trans)
  next
    case False
    with run first have "w' = w1"
      by (auto simp: executeWithReplay_def split: sum.splits error.splits)
    with s1 show ?thesis by simp
  qed
qed

section \<open>The backend follows the fold\<close>

lemma getValidContext_cases:
  assumes "getValidContext c w = (r, w')"
  shows "sessions w' = sessions w \<and> (\<forall>c'. c' \<noteq> c \<longrightarrow> contexts w' c' = contexts w c') \<and>
         ((r = Inl (ContextExpiredError c) \<and> contexts w' c = None) \<or>
          (\<exists>ctx. r = Inr ctx \<and> contexts w c = Some ctx \<and> w' = w\<lparr>tick := Suc (tick w)\<rparr>))"
  using assms
  by (auto simp: getValidContext_def Date_now_def split: option.splits if_splits)

lemma touch_context_effect:
  assumes "touch_context c ctx its w = (r, w')"
  shows "r = Inr () \<and> sessions w' = sessions w \<and> (\<forall>c'. c' \<noteq> c \<longrightarrow> contexts w' c' = contexts w c') \<and>
         (\<exists>ctx'. contexts w' c = Some ctx' \<and> ctx_items ctx' = its)"
  using assms by (auto simp: touch_context_def Date_now_def)

lemma backend_call_effect:
  assumes "backend_call c ev w = (r, w')"
  shows "sessions w' = sessions w \<and> (\<forall>c'. c' \<noteq> c \<longrightarrow> contexts w' c' = contexts w c') \<and>
         ((r = Inl (ContextExpiredError c) \<and> contexts w' c = None) \<or>
          (\<exists>ctx ctx'. contexts w c = Some ctx \<and> contexts w' c = Some ctx' \<and>
              ctx_items ctx' = apply_event (ctx_items ctx) ev \<and> outcome_ok ev (ctx_items ctx) r))"
proof -
  obtain r1 w1 where g: "getValidContext c w = (r1, w1)" by (cases "getValidContext c w")
  note gc = getValidContext_cases [OF g]
  show ?thesis
  proof (cases r1)
    case (Inl e)
    with g assms have "r = Inl e" "w' = w1"
      by (cases ev; simp add: sf_addItem_def sf_removeItem_def sf_updateItem_def bindE_def)+
    with gc Inl show ?thesis by auto
  next
    case (Inr ctx)
    with gc have ctx: "contexts w c = Some ctx" and w1: "w1 = w\<lparr>tick := Suc (tick w)\<rparr>" by auto
    show ?thesis
    proof (cases ev)
      case (ITEM_ADDED k ty nm pr q ts)
      with assms g Inr obtain its where
        t: "touch_context c ctx its w1 = (r, w')" and its: "its = apply_event (ctx_items ctx) ev"
        by (auto simp: sf_addItem_def bindE_def split: option.splits)
      from touch_context_effect [OF t] ctx w1 its ITEM_ADDED show ?thesis
        by (auto simp: outcome_ok_def)
    next
      case (ITEM_REMOVED k q ts)
      show ?thesis
      proof (cases "get_item k (ctx_items ctx)")
        case None
        with assms g Inr ITEM_REMOVED have "r = Inl (ItemNotFoundError k)" "w' = w1"
          by (auto simp: sf_removeItem_def bindE_def throw_def)
        with None ctx w1 ITEM_REMOVED show ?thesis by (auto simp: outcome_ok_def)
      next
        case (Some item)
        with assms g Inr ITEM_REMOVED obtain its where
          t: "touch_context c ctx its w1 = (r, w')" and its: "its = apply_event (ctx_items ctx) ev"
          by (auto simp: sf_removeItem_def bindE_def split: if_splits)
        from touch_context_effect [OF t] ctx w1 its ITEM_REMOVED Some show ?thesis
          by (auto simp: outcome_ok_def)
      qed
    next
      case (ITEM_UPDATED k q ts)
      show ?thesis
      proof (cases "get_item k (ctx_items ctx)")
        case None
        with assms g Inr ITEM_UPDATED have "r = Inl (ItemNotFoundError k)" "w' = w1"
          by (auto simp: sf_updateItem_def bindE_def throw_def)
        with None ctx w1 ITEM_UPDATED show ?thesis by (auto simp: outcome_ok_def)
      next
        case (Some item)
        with assms g Inr ITEM_UPDATED obtain its where
          t: "touch_context c ctx its w1 = (r, w')" and its: "its = apply_event (ctx_items ctx) ev"
          by (auto simp: sf_updateItem_def bindE_def)
        from touch_context_effect [OF t] ctx w1 its ITEM_UPDATED Some show ?thesis
          by (auto simp: outcome_ok_def)
      qed
    qed
  qed
qed

lemma sync_withI:
  assumes "sessions w sid = Some s" and "sfContextId s = Some c"
    and "\<And>ctx. contexts w c = Some ctx \<Longrightarrow> ctx_items ctx = its"
  shows "sync_with w sid its"
  using assms by (auto simp: sync_with_def)

lemma ensureSfContext_effect:
  assumes "sync_with w sid its" and "ensureSfContext sid w = (r, w')"
  shows "\<exists>c s'. r = Inr c \<and> sessions w' sid = Some s' \<and> sfContextId s' = Some c \<and>
           sync_with w' sid its"
proof -
  from assms(1) obtain s where s: "sessions w sid = Some s"
    and sync: "case sfContextId s of None \<Rightarrow> its = []
               | Some c \<Rightarrow> (\<forall>ctx. contexts w c = Some ctx \<longrightarrow> ctx_items ctx = its)"
    by (auto simp: sync_with_def)
  show ?thesis
  proof (cases "sfContextId s")
    case (Some c)
    with assms(2) s have "r = Inr c" "w' = w"
      by (simp_all add: ensureSfContext_def bindE_def getSession_def returnE_def)
    with s Some assms(1) show ?thesis by simp
  next
    case None
    obtain c w1 where cc: "createContext w = (c, w1)" by (cases "createContext w")
    then have w1: "sessions w1 = sessions w" "\<exists>ctx. contexts w1 c = Some ctx \<and> ctx_items ctx = []"
      by (auto simp: createContext_def nanoid_def Date_now_def)
    from assms(2) s None cc w1(1)
    have r: "r = Inr c" and w': "w' = w1\<lparr>sessions := (sessions w1)(sid \<mapsto> s\<lparr>sfContextId := Some c\<rparr>)\<rparr>"
      by (simp_all add: ensureSfContext_def bindE_def getSession_def returnE_def liftE_def
          updateSfContextId_def put_session_def)
    from None sync have "its = []" by simp
    with w1(2) w' have "sync_with w' sid its"
      by (intro sync_withI [where s = "s\<lparr>sfContextId := Some c\<rparr>" and c = c]) auto
    with r w' show ?thesis by simp
  qed
qed

lemma attempt_effect:
  assumes "sync_with w sid its" and "attempt sid ev w = (r, w')"
  shows "is_expired r \<or> (sync_with w' sid (apply_event its ev) \<and> outcome_ok ev its r)"
proof -
  obtain r1 w1 where e: "ensureSfContext sid w = (r1, w1)" by (cases "ensureSfContext sid w")
  from ensureSfContext_effect [OF assms(1) e] obtain c s' where
    r1: "r1 = Inr c" and s': "sessions w1 sid = Some s'" "sfContextId s' = Some c"
    and sync1: "sync_with w1 sid its" by blast
  from assms(2) e r1 have b: "backend_call c ev w1 = (r, w')"
    by (simp add: attempt_def bindE_def)
  from backend_call_effect [OF b] s' sync1 show ?thesis
    by (auto simp: sync_with_def)
qed

lemma replay_event_effect:
  assumes "replay_event c ev w = (r, w')"
  shows "sessions w' = sessions w \<and>
         (r = Inl (ContextExpiredError c) \<or>
          (r = Inr () \<and> (\<exists>ctx ctx'. contexts w c = Some ctx \<and> contexts w' c = Some ctx' \<and>
              ctx_items ctx' = apply_event (ctx_items ctx) ev)))"
proof -
  obtain r1 w1 where b: "backend_call c ev w = (r1, w1)" by (cases "backend_call c ev w")
  from assms b have rel: "w' = w1 \<and> (if r1 = Inl (ItemNotFoundError (event_item ev)) then r = Inr () else r = r1)"
    using backend_call_effect [OF b]
    by (cases ev) (auto simp: catch_ItemNotFound_def outcome_ok_def split: sum.splits error.splits if_splits)
  with backend_call_effect [OF b] show ?thesis
    by (auto simp: outcome_ok_def split: if_splits)
qed

lemma replay_loop_effect:
  assumes "contexts w c = Some ctx" and "replay_loop c evs w = (r, w')"
  shows "sessions w' = sessions w \<and>
         (r = Inl (ContextExpiredError c) \<or>
          (r = Inr () \<and> (\<exists>ctx'. contexts w' c = Some ctx' \<and>
              ctx_items ctx' = foldl apply_event (ctx_items ctx) evs)))"
  using assms
proof (induction evs arbitrary: w ctx)
  case Nil
  then show ?case by simp
next
  case (Cons ev evs)
  obtain r1 w1 where step: "replay_event c ev w = (r1, w1)" by (cases "replay_event c ev w")
  note eff = replay_event_effect [OF step]
  show ?case
  proof (cases r1)
    case (Inl e)
    with Cons.prems step eff show ?thesis by auto
  next
    case (Inr u)
    with eff Cons.prems(1) obtain ctx1 where
      c1: "contexts w1 c = Some ctx1" "ctx_items ctx1 = apply_event (ctx_items ctx) ev" by auto
    from Inr Cons.prems(2) step have "replay_loop c evs w1 = (r, w')" by simp
    from Cons.IH [OF c1(1) this] c1(2) eff show ?thesis by simp
  qed
qed

lemma replayEvents_effect:
  assumes "sessions w sid = Some s" and "replayEvents sid w = (r, w')"
  shows "is_expired r \<or> (r = Inr () \<and> sync_with w' sid (fold_items (events s)))"
proof -
  obtain c w1 where cc: "createContext w = (c, w1)" by (cases "createContext w")
  then have w1: "sessions w1 = sessions w" "\<exists>ctx. contexts w1 c = Some ctx \<and> ctx_items ctx = []"
    by (auto simp: createContext_def nanoid_def Date_now_def)
  define w2 where "w2 = w1\<lparr>sessions := (sessions w1)(sid \<mapsto> s\<lparr>sfContextId := Some c\<rparr>)\<rparr>"
  from assms(2) cc w1(1) assms(1) have loop: "replay_loop c (events s) w2 = (r, w')"
    by (simp add: replayEvents_def bindE_def liftE_def updateSfContextId_def getSession_def
        put_session_def getEvents_def returnE_def w2_def)
  from w1(2) obtain ctx where ctx: "contexts w2 c = Some ctx" "ctx_items ctx = []"
    by (auto simp: w2_def)
  from replay_loop_effect [OF ctx(1) loop] ctx(2) show ?thesis
    by (auto simp: sync_with_def w2_def fold_items_def)
qed

lemma preserves_attempt [simp]: "preserves (attempt sid ev)"
  unfolding attempt_def by (intro preserves_bindE) simp_all

lemma stable_session:
  "stable w w' \<Longrightarrow> sessions w sid = Some s \<Longrightarrow>
   \<exists>s'. sessions w' sid = Some s' \<and> events s' = events s \<and> checkedOut s' = checkedOut s"
  by (auto simp: stable_def session_view_def dest!: spec [of _ sid])

lemma executeWithReplay_effect:
  assumes "sessions w sid = Some s" and "sync_with w sid (fold_items (events s))"
    and "executeWithReplay sid (attempt sid ev) w = (r, w')"
  shows "is_expired r \<or>
         (sync_with w' sid (apply_event (fold_items (events s)) ev) \<and>
          outcome_ok ev (fold_items (events s)) r)"
proof -
  obtain r1 w1 where first: "attempt sid ev w = (r1, w1)" by (cases "attempt sid ev w")
  note a1 = attempt_effect [OF assms(2) first]
  show ?thesis
  proof (cases "is_expired r1")
    case False
    with assms(3) first have "r = r1" "w' = w1"
      by (auto simp: executeWithReplay_def split: sum.splits error.splits)
    with a1 False show ?thesis by simp
  next
    case True
    with assms(3) first have retry: "bindE (replayEvents sid) (\<lambda>_. attempt sid ev) w1 = (r, w')"
      by (auto simp: executeWithReplay_def split: sum.splits error.splits)
    have "stable w w1" using preserves_attempt first by (rule preservesD)
    from stable_session [OF this assms(1)] obtain s1 where
      s1: "sessions w1 sid = Some s1" "events s1 = events s" by blast
    obtain r2 w2 where rep: "replayEvents sid w1 = (r2, w2)" by (cases "replayEvents sid w1")
    note re = replayEvents_effect [OF s1(1) rep]
    show ?thesis
    proof (cases r2)
      case (Inl e)
      with retry rep re show ?thesis by (auto simp: bindE_def)
    next
      case (Inr u)
      with retry rep have second: "attempt sid ev w2 = (r, w')" by (simp add: bindE_def)
      from re Inr s1(2) have "sync_with w2 sid (fold_items (events s))" by simp
      from attempt_effect [OF this second] show ?thesis .
    qed
  qed
qed

section \<open>The service methods factor through the pre-checks\<close>

lemma apply_event_stamp [simp]: "apply_event its (stamp t ev) = apply_event its ev"
  by (cases ev) simp_all

lemma attempt_stamp [simp]: "attempt sid (stamp t ev) = attempt sid ev"
  by (cases ev) (simp_all add: attempt_def)

lemma isCheckedOut_eq:
  "sessions w sid = Some s \<Longrightarrow> isCheckedOut sid w = (Inr (checkedOut s), w)"
  by (simp add: isCheckedOut_def bindE_def getSession_def returnE_def)

lemma getCart_eq:
  "sessions w sid = Some s \<Longrightarrow>
   getCart sid w = (Inr (buildCartFromEvents (taxRate w) sid (events s)), w)"
  by (simp add: getCart_def bindE_def getSession_def getEvents_def returnE_def)

lemma perform_resolve:
  assumes "sessions w sid = Some s"
  shows "perform sid op w =
     (case resolve (checkedOut s) sid (fold_items (events s)) op of
        Inl e \<Rightarrow> (Inl e, w)
      | Inr ev \<Rightarrow> bindE (executeWithReplay sid (attempt sid ev)) (\<lambda>_. commit sid ev) w)"
proof (cases op)
  case (AddItem request)
  then show ?thesis
    by (simp add: addItem_def resolve_def throw_def attempt_def commit_def
        bindE_def [of "isCheckedOut sid"] isCheckedOut_eq [OF assms] split: option.splits)
next
  case (RemoveItem itemId qty)
  then show ?thesis
    by (simp add: removeItem_def resolve_def throw_def attempt_def commit_def Let_def
        bindE_def [of "isCheckedOut sid"] bindE_def [of "getCart sid"]
        isCheckedOut_eq [OF assms] getCart_eq [OF assms] split: option.splits)
next
  case (UpdateItem itemId qty)
  then show ?thesis
    by (simp add: updateItem_def resolve_def throw_def attempt_def commit_def
        bindE_def [of "isCheckedOut sid"] bindE_def [of "getCart sid"]
        isCheckedOut_eq [OF assms] getCart_eq [OF assms] split: option.splits)
qed

lemma resolve_applicable: "resolve completed sid its op = Inr ev \<Longrightarrow> applicable ev its"
  by (cases op) (auto simp: resolve_def split: option.splits if_splits)


lemma commit_eq:
  assumes "sessions w sid = Some s"
  shows "commit sid ev w =
     (Inr (buildCartFromEvents (taxRate w) sid (events s @ [stamp (clock w (tick w)) ev])),
      w\<lparr>tick := Suc (tick w),
        sessions := (sessions w)(sid \<mapsto> s\<lparr>events := events s @ [stamp (clock w (tick w)) ev]\<rparr>)\<rparr>)"
  using assms
  by (simp add: commit_def bindE_def liftE_def Date_now_def appendEvent_def getSession_def
      put_session_def getCart_def getEvents_def returnE_def)

section \<open>Runs that agree\<close>

lemma sync_with_commit:
  assumes "sync_with w sid its" and "sessions w sid = Some s"
  shows "sync_with (w\<lparr>tick := n, sessions := (sessions w)(sid \<mapsto> s\<lparr>events := evs\<rparr>)\<rparr>) sid its"
  using assms by (auto simp: sync_with_def split: option.splits)

lemma perform_effect:
  assumes s: "sessions w sid = Some s"
    and sync: "sync_with w sid (fold_items (events s))"
    and run: "perform sid op w = (r, w')"
    and ne: "\<not> is_expired r"
  shows "\<exists>s'. sessions w' sid = Some s' \<and> checkedOut s' = checkedOut s \<and>
           sync_with w' sid (fold_items (events s')) \<and> taxRate w' = taxRate w \<and>
           (case resolve (checkedOut s) sid (fold_items (events s)) op of
              Inl e \<Rightarrow> r = Inl e \<and> events s' = events s
            | Inr ev \<Rightarrow> (\<exists>ts. events s' = events s @ [stamp ts ev]) \<and>
                r = Inr (buildCartFromEvents (taxRate w) sid (events s')))"
proof (cases "resolve (checkedOut s) sid (fold_items (events s)) op")
  case (Inl e)
  with run perform_resolve [OF s, of op] have "r = Inl e" "w' = w" by simp_all
  with Inl s sync show ?thesis by simp
next
  case (Inr ev)
  with run perform_resolve [OF s, of op]
  have run': "bindE (executeWithReplay sid (attempt sid ev)) (\<lambda>_. commit sid ev) w = (r, w')"
    by simp
  obtain r1 w1 where ex: "executeWithReplay sid (attempt sid ev) w = (r1, w1)"
    by (cases "executeWithReplay sid (attempt sid ev) w")
  have "preserves (executeWithReplay sid (attempt sid ev))"
    by (rule preserves_executeWithReplay) simp
  then have st: "stable w w1" using ex by (rule preservesD)
  from stable_session [OF st s] obtain s1 where
    s1: "sessions w1 sid = Some s1" "events s1 = events s" "checkedOut s1 = checkedOut s" by blast
  from st have rate: "taxRate w1 = taxRate w" by (simp add: stable_def)
  note eff = executeWithReplay_effect [OF s sync ex]
  have appl: "applicable ev (fold_items (events s))" using Inr by (rule resolve_applicable)
  show ?thesis
  proof (cases r1)
    case (Inl e)
    with run' ex have "r = Inl e" by (simp add: bindE_def)
    with eff Inl ne appl show ?thesis by (auto simp: outcome_ok_def)
  next
    case r1: (Inr u)
    with run' ex have c: "commit sid ev w1 = (r, w')" by (simp add: bindE_def)
    define t where "t = clock w1 (tick w1)"
    from c commit_eq [OF s1(1), of ev]
    have r: "r = Inr (buildCartFromEvents (taxRate w1) sid (events s1 @ [stamp t ev]))"
      and w': "w' = w1\<lparr>tick := Suc (tick w1),
          sessions := (sessions w1)(sid \<mapsto> s1\<lparr>events := events s1 @ [stamp t ev]\<rparr>)\<rparr>"
      by (simp_all add: t_def)
    from eff r1 have "sync_with w1 sid (apply_event (fold_items (events s)) ev)" by simp
    then have "sync_with w' sid (apply_event (fold_items (events s)) ev)"
      unfolding w' using s1(1) by (rule sync_with_commit)
    with Inr r w' s1 rate show ?thesis
      by (auto simp: fold_items_snoc)
  qed
qed





section \<open>A clock that stands still\<close>








section \<open>What one operation does to the log\<close>

lemma replayEvents_new_handle:
  assumes "sessions w sid = Some s" and "fst (replayEvents sid w) = Inr ()"
  shows "\<exists>s' ctx. sessions (snd (replayEvents sid w)) sid = Some s' \<and>
           sfContextId s' = Some (nano w) \<and> events s' = events s \<and>
           checkedOut s' = checkedOut s \<and>
           contexts (snd (replayEvents sid w)) (nano w) = Some ctx \<and>
           ctx_items ctx = fold_items (events s)"
proof -
  obtain c w1 where cc: "createContext w = (c, w1)" by (cases "createContext w")
  then have w1: "c = nano w" "sessions w1 = sessions w"
      "\<exists>ctx. contexts w1 c = Some ctx \<and> ctx_items ctx = []"
    by (auto simp: createContext_def nanoid_def Date_now_def)
  define w2 where "w2 = w1\<lparr>sessions := (sessions w1)(sid \<mapsto> s\<lparr>sfContextId := Some c\<rparr>)\<rparr>"
  from cc w1(2) assms(1) have eq: "replayEvents sid w = replay_loop c (events s) w2"
    by (simp add: replayEvents_def bindE_def liftE_def updateSfContextId_def getSession_def
        put_session_def getEvents_def returnE_def w2_def)
  obtain r w' where loop: "replay_loop c (events s) w2 = (r, w')"
    by (cases "replay_loop c (events s) w2")
  from w1(3) obtain ctx where ctx: "contexts w2 c = Some ctx" "ctx_items ctx = []"
    by (auto simp: w2_def)
  from assms(2) eq loop have r: "r = Inr ()" by simp
  from replay_loop_effect [OF ctx(1) loop] r ctx(2) eq loop w1(1) show ?thesis
    by (auto simp: w2_def fold_items_def)
qed

lemma event_like:
  assumes s: "sessions w sid = Some s"
    and res: "resolve (checkedOut s) sid (fold_items (events s)) op = Inr ev"
    and ex: "executeWithReplay sid (attempt sid ev) w = (r1, w1)"
  shows "\<exists>s'. sessions (snd (perform sid op w)) sid = Some s' \<and>
           (case r1 of
              Inr u \<Rightarrow> events s' = events s @ [stamp (clock w1 (tick w1)) ev] \<and>
                 fst (perform sid op w) = Inr (buildCartFromEvents (taxRate w) sid (events s'))
            | Inl e \<Rightarrow> events s' = events s \<and> perform sid op w = (Inl e, w1))"
proof -
  from res perform_resolve [OF s, of op]
  have run: "perform sid op w = bindE (executeWithReplay sid (attempt sid ev)) (\<lambda>_. commit sid ev) w"
    by simp
  have "preserves (executeWithReplay sid (attempt sid ev))"
    by (rule preserves_executeWithReplay) simp
  then have st: "stable w w1" using ex by (rule preservesD)
  from stable_session [OF st s] obtain s1 where
    s1: "sessions w1 sid = Some s1" "events s1 = events s" by blast
  from st have rate: "taxRate w1 = taxRate w" by (simp add: stable_def)
  show ?thesis
  proof (cases r1)
    case (Inl e)
    with run ex s1 show ?thesis by (simp add: bindE_def)
  next
    case r1: (Inr u)
    with run ex have "perform sid op w = commit sid ev w1" by (simp add: bindE_def)
    with commit_eq [OF s1(1), of ev] s1 rate r1 show ?thesis by simp
  qed
qed

lemma perform_absent:
  assumes "sessions w sid = None"
  shows "\<exists>e. perform sid op w = (Inl e, w)"
  using assms
  by (cases op)
    (auto simp: addItem_def removeItem_def updateItem_def throw_def bindE_def isCheckedOut_def
      getSession_def split: option.splits)

lemma perform_flags:
  assumes "sessions w sid = Some s"
  shows "\<exists>s'. sessions (snd (perform sid' op w)) sid = Some s' \<and> checkedOut s' = checkedOut s"
proof (cases "sessions w sid'")
  case None
  from perform_absent [OF this, of op] assms show ?thesis by auto
next
  case (Some u)
  show ?thesis
  proof (cases "resolve (checkedOut u) sid' (fold_items (events u)) op")
    case (Inl e)
    with perform_resolve [OF Some, of op] assms show ?thesis by simp
  next
    case (Inr ev)
    with perform_resolve [OF Some, of op]
    have run: "perform sid' op w = bindE (executeWithReplay sid' (attempt sid' ev)) (\<lambda>_. commit sid' ev) w"
      by simp
    obtain r1 w1 where ex: "executeWithReplay sid' (attempt sid' ev) w = (r1, w1)"
      by (cases "executeWithReplay sid' (attempt sid' ev) w")
    have "preserves (executeWithReplay sid' (attempt sid' ev))"
      by (rule preserves_executeWithReplay) simp
    then have st: "stable w w1" using ex by (rule preservesD)
    from stable_session [OF st assms] obtain s1 where
      s1: "sessions w1 sid = Some s1" "checkedOut s1 = checkedOut s" by blast
    from stable_session [OF st Some] obtain u1 where
      u1: "sessions w1 sid' = Some u1" "checkedOut u1 = checkedOut u" by blast
    show ?thesis
    proof (cases r1)
      case (Inl e)
      with run ex s1 show ?thesis by (simp add: bindE_def)
    next
      case r1: (Inr x)
      with run ex have "perform sid' op w = commit sid' ev w1" by (simp add: bindE_def)
      with commit_eq [OF u1(1), of ev] s1 u1 show ?thesis by auto
    qed
  qed
qed

section \<open>Checkout\<close>

lemma preserves_checkout_call [simp]:
  "preserves (executeWithReplay sid (bindE (ensureSfContext sid) (\<lambda>c. sf_checkout c sid)))"
  by (intro preserves_executeWithReplay preserves_bindE) simp_all

lemma checkout_completed:
  "sessions w sid = Some s \<Longrightarrow> checkedOut s \<Longrightarrow>
   checkout sid w = (Inl (SessionCompletedError sid), w)"
  by (simp add: checkout_def bindE_def [of "isCheckedOut sid"] isCheckedOut_eq throw_def)

lemma checkout_empty:
  "sessions w sid = Some s \<Longrightarrow> \<not> checkedOut s \<Longrightarrow> fold_items (events s) = [] \<Longrightarrow>
   checkout sid w = (Inl EmptyCartError, w)"
  by (simp add: checkout_def bindE_def [of "isCheckedOut sid"] bindE_def [of "getCart sid"]
      isCheckedOut_eq getCart_eq throw_def)

lemma checkout_absent:
  "sessions w sid = None \<Longrightarrow> checkout sid w = (Inl (SessionNotFoundError sid), w)"
  by (simp add: checkout_def bindE_def isCheckedOut_def getSession_def)

lemma checkout_active:
  assumes s: "sessions w sid = Some s" and "\<not> checkedOut s" and "fold_items (events s) \<noteq> []"
    and ex: "executeWithReplay sid (bindE (ensureSfContext sid) (\<lambda>c. sf_checkout c sid)) w = (r1, w1)"
  shows "\<exists>s1. sessions w1 sid = Some s1 \<and> events s1 = events s \<and> checkedOut s1 = checkedOut s \<and>
           (case r1 of
              Inl e \<Rightarrow> checkout sid w = (Inl e, w1)
            | Inr order \<Rightarrow>
                fst (checkout sid w) =
                  Inr (Cart.extend (buildCartFromEvents (taxRate w) sid (events s))
                         \<lparr>orderId = order, status = ''COMPLETED''\<rparr>) \<and>
                snd (checkout sid w) =
                  w1\<lparr>sessions := (sessions w1)(sid \<mapsto> s1\<lparr>checkedOut := True\<rparr>)\<rparr>)"
proof -
  have st: "stable w w1" using preserves_checkout_call ex by (rule preservesD)
  from stable_session [OF st s] obtain s1 where
    s1: "sessions w1 sid = Some s1" "events s1 = events s" "checkedOut s1 = checkedOut s" by blast
  have run: "checkout sid w =
      bindE (executeWithReplay sid (bindE (ensureSfContext sid) (\<lambda>c. sf_checkout c sid))) (\<lambda>order.
             bindE (markCheckedOut sid) (\<lambda>_.
             returnE \<lparr>sessionId = sid, items = items (buildCartFromEvents (taxRate w) sid (events s)),
               subtotal = subtotal (buildCartFromEvents (taxRate w) sid (events s)),
               tax = tax (buildCartFromEvents (taxRate w) sid (events s)),
               total = total (buildCartFromEvents (taxRate w) sid (events s)),
               orderId = order, status = ''COMPLETED''\<rparr>)) w"
    using assms(1-3)
    by (simp add: checkout_def bindE_def [of "isCheckedOut sid"] bindE_def [of "getCart sid"]
        isCheckedOut_eq getCart_eq)
  show ?thesis
  proof (cases r1)
    case (Inl e)
    with run ex s1 show ?thesis by (simp add: bindE_def)
  next
    case (Inr order)
    with run ex s1 show ?thesis
      by (simp add: bindE_def markCheckedOut_def getSession_def put_session_def returnE_def
          Cart.extend_def buildCartFromEvents_def Let_def)
  qed
qed

lemma checkout_flags:
  assumes "sessions w sid = Some s"
  shows "\<exists>s'. sessions (snd (checkout sid' w)) sid = Some s' \<and> events s' = events s \<and>
           (checkedOut s \<longrightarrow> checkedOut s') \<and>
           (checkedOut s' \<and> \<not> checkedOut s \<longrightarrow> sid' = sid \<and> (\<exists>res. fst (checkout sid' w) = Inr res))"
proof (cases "sessions w sid'")
  case None
  with checkout_absent [OF None] assms show ?thesis by simp
next
  case (Some u)
  consider "checkedOut u" | "\<not> checkedOut u" "fold_items (events u) = []"
    | "\<not> checkedOut u" "fold_items (events u) \<noteq> []" by blast
  then show ?thesis
  proof cases
    case 1
    with checkout_completed [OF Some] assms show ?thesis by simp
  next
    case 2
    with checkout_empty [OF Some] assms show ?thesis by simp
  next
    case 3
    obtain r1 w1 where
      ex: "executeWithReplay sid' (bindE (ensureSfContext sid') (\<lambda>c. sf_checkout c sid')) w = (r1, w1)"
      by (cases "executeWithReplay sid' (bindE (ensureSfContext sid') (\<lambda>c. sf_checkout c sid')) w")
    have st: "stable w w1" using preserves_checkout_call ex by (rule preservesD)
    from stable_session [OF st assms] obtain s1 where
      s1: "sessions w1 sid = Some s1" "events s1 = events s" "checkedOut s1 = checkedOut s" by blast
    from checkout_active [OF Some 3 ex] s1 show ?thesis
      by (cases r1) auto
  qed
qed

lemma checkout_success:
  assumes "sessions w sid = Some s" and "fst (checkout sid w) = Inr res"
  shows "\<not> checkedOut s \<and>
         (\<exists>s'. sessions (snd (checkout sid w)) sid = Some s' \<and> checkedOut s' \<and> events s' = events s) \<and>
         fst (checkout sid (snd (checkout sid w))) = Inl (SessionCompletedError sid)"
proof -
  from assms checkout_completed [OF assms(1)] have active: "\<not> checkedOut s" by auto
  from assms checkout_empty [OF assms(1) active] have ne: "fold_items (events s) \<noteq> []" by auto
  obtain r1 w1 where
    ex: "executeWithReplay sid (bindE (ensureSfContext sid) (\<lambda>c. sf_checkout c sid)) w = (r1, w1)"
    by (cases "executeWithReplay sid (bindE (ensureSfContext sid) (\<lambda>c. sf_checkout c sid)) w")
  from checkout_active [OF assms(1) active ne ex] assms(2) obtain s1 where
    s1: "sessions w1 sid = Some s1" "events s1 = events s"
    and w': "snd (checkout sid w) = w1\<lparr>sessions := (sessions w1)(sid \<mapsto> s1\<lparr>checkedOut := True\<rparr>)\<rparr>"
    by (cases r1) auto
  have after: "sessions (snd (checkout sid w)) sid = Some (s1\<lparr>checkedOut := True\<rparr>)"
    by (simp add: w')
  from checkout_completed [OF after] active after s1 show ?thesis by simp
qed

section \<open>Evaluating scenarios\<close>

lemma floor_numeral_div: "\<lfloor>(numeral a :: rat) / numeral b\<rfloor> = numeral a div numeral b"
  using floor_divide_of_int_eq [of "numeral a" "numeral b", where ?'a = rat] by simp

lemma floor_one_div: "\<lfloor>(1 :: rat) / 2\<rfloor> = 0"
  using floor_divide_of_int_eq [of 1 2, where ?'a = rat] by simp

lemmas model_defs =
  createApp_def createSession_def nanoid_def Date_now_def bindE_def returnE_def throw_def
  liftE_def getSession_def put_session_def updateSfContextId_def appendEvent_def
  markCheckedOut_def getEvents_def isCheckedOut_def createContext_def getValidContext_def
  touch_context_def sf_addItem_def sf_removeItem_def sf_updateItem_def sf_checkout_def
  getCart_def ensureSfContext_def catch_ItemNotFound_def replayEvents_def
  executeWithReplay_def validateAddItemRequest_def addItem_def removeItem_def updateItem_def
  checkout_def buildCartFromEvents_def fold_items_def get_item_def set_quantity_def
  delete_item_def Math_round_def Let_def floor_numeral_div floor_one_div attempt_def
  commit_def

lemmas scenario_defs =
  model_defs scenario_world_def item_A_def item_B_def quiet_def one_gap_def two_gaps_def
  after_A_def checked_out_def

section \<open>The projection\<close>







section \<open>The recovery-wrapped call\<close>

text \<open>
  Claim C3. If the first attempt of a backend mutation does not fail with the
  context-expired error, its outcome (a value or any other error) is the outcome of the
  call, and nothing is replayed. If it fails with the context-expired error, the log is
  replayed: an error of the replay is the outcome; after a replay that succeeds the
  mutation is run exactly once more, on the state the replay left, and whatever that run
  gives is the outcome of the call, a second context-expired error included, a success
  included (so that the first error is not surfaced). A replay that succeeds has created
  a new handle, stored it in the session, left the log as it was, and brought the new
  handle to the fold of the whole log.
\<close>

theorem recovery_wrapped_call:
  "(\<not> is_expired (fst (operation w)) \<longrightarrow> executeWithReplay sid operation w = operation w) \<and>
   (is_expired (fst (operation w)) \<longrightarrow>
      (\<forall>e. fst (replayEvents sid (snd (operation w))) = Inl e \<longrightarrow>
         executeWithReplay sid operation w =
           (Inl e, snd (replayEvents sid (snd (operation w))))) \<and>
      (fst (replayEvents sid (snd (operation w))) = Inr () \<longrightarrow>
         executeWithReplay sid operation w =
           operation (snd (replayEvents sid (snd (operation w)))))) \<and>
   (\<forall>s. sessions w1 sid = Some s \<and> fst (replayEvents sid w1) = Inr () \<longrightarrow>
      (\<exists>s' ctx. sessions (snd (replayEvents sid w1)) sid = Some s' \<and>
         sfContextId s' = Some (nano w1) \<and> events s' = events s \<and>
         contexts (snd (replayEvents sid w1)) (nano w1) = Some ctx \<and>
         ctx_items ctx = fold_items (events s)))"
proof (intro conjI impI allI)
  assume "\<not> is_expired (fst (operation w))"
  then show "executeWithReplay sid operation w = operation w"
    by (cases "operation w") (auto simp: executeWithReplay_def split: sum.splits error.splits)
next
  fix e
  assume "is_expired (fst (operation w))" and "fst (replayEvents sid (snd (operation w))) = Inl e"
  then show "executeWithReplay sid operation w = (Inl e, snd (replayEvents sid (snd (operation w))))"
    by (cases "operation w"; cases "replayEvents sid (snd (operation w))")
      (auto simp: executeWithReplay_def bindE_def split: sum.splits error.splits)
next
  assume "is_expired (fst (operation w))" and "fst (replayEvents sid (snd (operation w))) = Inr ()"
  then show "executeWithReplay sid operation w = operation (snd (replayEvents sid (snd (operation w))))"
    by (cases "operation w"; cases "replayEvents sid (snd (operation w))")
      (auto simp: executeWithReplay_def bindE_def split: sum.splits error.splits)
next
  fix s
  assume "sessions w1 sid = Some s \<and> fst (replayEvents sid w1) = Inr ()"
  then show "\<exists>s' ctx. sessions (snd (replayEvents sid w1)) sid = Some s' \<and>
         sfContextId s' = Some (nano w1) \<and> events s' = events s \<and>
         contexts (snd (replayEvents sid w1)) (nano w1) = Some ctx \<and>
         ctx_items ctx = fold_items (events s)"
    using replayEvents_new_handle [of w1 sid s] by auto
qed

theorem recovery_wrapped_call_witness:
  "is_expired (fst (attempt 0 event_B (after_A one_gap))) \<and>
   fst (replayEvents 0 (snd (attempt 0 event_B (after_A one_gap)))) = Inr () \<and>
   fst (executeWithReplay 0 (attempt 0 event_B) (after_A one_gap)) = Inr () \<and>
   is_expired (fst (attempt 0 event_B (after_A two_gaps))) \<and>
   fst (replayEvents 0 (snd (attempt 0 event_B (after_A two_gaps)))) = Inr () \<and>
   fst (executeWithReplay 0 (attempt 0 event_B) (after_A two_gaps)) = Inl (ContextExpiredError 2) \<and>
   \<not> is_expired (fst (attempt 0 event_B (after_A quiet))) \<and>
   fst (executeWithReplay 0 (attempt 0 event_B) (after_A quiet)) = Inr ()"
  using recovery_wrapped_call [of "attempt 0 event_B" "after_A one_gap" 0
      "snd (attempt 0 event_B (after_A one_gap))"]
    recovery_wrapped_call [of "attempt 0 event_B" "after_A two_gaps" 0
      "snd (attempt 0 event_B (after_A two_gaps))"]
    recovery_wrapped_call [of "attempt 0 event_B" "after_A quiet" 0 "after_A quiet"]
  by (simp add: scenario_defs event_B_def)

text \<open>
  Claim C5. A replay step whose backend call succeeds goes on to the next event; a step
  whose backend call fails with item-not-found goes on as well when the event is a remove
  or an update; any other error of any step, also of an add, ends the replay with that
  error. The replay walks the whole log of the session against the new handle, and an
  error that ends it is the error of the recovery-wrapped call and of the client's
  operation.
\<close>

theorem replay_error_policy:
  "replay_loop c (ev # rest) w =
     (case backend_call c ev w of
        (Inr u, w1) \<Rightarrow> replay_loop c rest w1
      | (Inl e, w1) \<Rightarrow> if swallowed ev e then replay_loop c rest w1 else (Inl e, w1)) \<and>
   (sessions w sid = Some s \<longrightarrow>
      replayEvents sid w =
        replay_loop (nano w) (events s)
          (snd (updateSfContextId sid (nano w) (snd (createContext w))))) \<and>
   (\<forall>e. is_expired (fst (operation w)) \<and> fst (replayEvents sid (snd (operation w))) = Inl e \<longrightarrow>
      fst (executeWithReplay sid operation w) = Inl e) \<and>
   (\<forall>ev0 e. sessions w sid = Some s \<and>
       resolve (checkedOut s) sid (fold_items (events s)) op = Inr ev0 \<and>
       is_expired (fst (attempt sid ev0 w)) \<and>
       fst (replayEvents sid (snd (attempt sid ev0 w))) = Inl e \<longrightarrow>
      fst (perform sid op w) = Inl e)"
proof (intro conjI impI allI)
  show "replay_loop c (ev # rest) w =
     (case backend_call c ev w of
        (Inr u, w1) \<Rightarrow> replay_loop c rest w1
      | (Inl e, w1) \<Rightarrow> if swallowed ev e then replay_loop c rest w1 else (Inl e, w1))"
  proof (cases ev)
    case (ITEM_ADDED k ty nm pr q ts)
    then show ?thesis by (simp split: prod.splits sum.splits)
  next
    case (ITEM_REMOVED k q ts)
    then show ?thesis
      by (cases "sf_removeItem c k (Some q) w")
        (auto simp: catch_ItemNotFound_def split: sum.splits error.splits)
  next
    case (ITEM_UPDATED k q ts)
    then show ?thesis
      by (cases "sf_updateItem c k q w")
        (auto simp: catch_ItemNotFound_def split: sum.splits error.splits)
  qed
next
  assume "sessions w sid = Some s"
  then show "replayEvents sid w =
        replay_loop (nano w) (events s)
          (snd (updateSfContextId sid (nano w) (snd (createContext w))))"
    by (simp add: replayEvents_def bindE_def liftE_def updateSfContextId_def getSession_def
        put_session_def getEvents_def returnE_def createContext_def nanoid_def Date_now_def)
next
  fix e
  assume "is_expired (fst (operation w)) \<and> fst (replayEvents sid (snd (operation w))) = Inl e"
  then show "fst (executeWithReplay sid operation w) = Inl e"
    by (cases "operation w"; cases "replayEvents sid (snd (operation w))")
      (auto simp: executeWithReplay_def bindE_def split: sum.splits error.splits)
next
  fix ev0 e
  assume a: "sessions w sid = Some s \<and>
       resolve (checkedOut s) sid (fold_items (events s)) op = Inr ev0 \<and>
       is_expired (fst (attempt sid ev0 w)) \<and>
       fst (replayEvents sid (snd (attempt sid ev0 w))) = Inl e"
  then have "fst (executeWithReplay sid (attempt sid ev0) w) = Inl e"
    by (cases "attempt sid ev0 w"; cases "replayEvents sid (snd (attempt sid ev0 w))")
      (auto simp: executeWithReplay_def bindE_def split: sum.splits error.splits)
  with a perform_resolve [of w sid s op] show "fst (perform sid op w) = Inl e"
    by (cases "executeWithReplay sid (attempt sid ev0) w") (simp add: bindE_def)
qed

theorem replay_error_policy_witness:
  "fst (backend_call 1 (ITEM_REMOVED ''x'' 1 0) (snd (createContext (scenario_world quiet)))) =
     Inl (ItemNotFoundError ''x'') \<and>
   fst (replay_loop 1 [ITEM_REMOVED ''x'' 1 0, ITEM_ADDED ''B'' ''PLAN'' ''Plan'' 50 1 0]
      (snd (createContext (scenario_world quiet)))) = Inr () \<and>
   map_option ctx_items (contexts (snd (replay_loop 1
      [ITEM_REMOVED ''x'' 1 0, ITEM_ADDED ''B'' ''PLAN'' ''Plan'' 50 1 0]
      (snd (createContext (scenario_world quiet))))) 1) =
     Some [\<lparr>item_id = ''B'', item_type = ''PLAN'', item_name = ''Plan'', price = 50, quantity = 1\<rparr>] \<and>
   fst (replay_loop 1 [ITEM_REMOVED ''x'' 1 0, ITEM_ADDED ''B'' ''PLAN'' ''Plan'' 50 1 0]
      (snd (createContext (scenario_world (\<lambda>k. if k < 3 then 0 else 1000))))) =
     Inl (ContextExpiredError 1)"
  using replay_error_policy [of 1 "ITEM_REMOVED ''x'' 1 0" "[ITEM_ADDED ''B'' ''PLAN'' ''Plan'' 50 1 0]"
      "snd (createContext (scenario_world quiet))"]
    replay_error_policy [of 1 "ITEM_ADDED ''B'' ''PLAN'' ''Plan'' 50 1 0" "[]"
      "snd (replay_loop 1 [ITEM_REMOVED ''x'' 1 0]
         (snd (createContext (scenario_world (\<lambda>k. if k < 3 then 0 else 1000)))))"]
  by (simp add: scenario_defs)

section \<open>The mutating operations and the log\<close>

text \<open>
  Claim C4. For addItem, removeItem and updateItem on an existing session: when a
  validation or look-up step rejects the request, the operation fails with that error and
  nothing changes. Otherwise the log after the operation is the log before it with the
  operation's event appended if the recovery-wrapped backend mutation succeeded, and the
  log before it, unchanged, if that call failed; in the second case the operation fails
  with the error of the call.
\<close>

theorem event_appended_iff_backend_succeeded:
  assumes "sessions w sid = Some s"
  shows "case resolve (checkedOut s) sid (fold_items (events s)) op of
           Inl e \<Rightarrow> perform sid op w = (Inl e, w)
         | Inr ev \<Rightarrow>
             (\<exists>s'. sessions (snd (perform sid op w)) sid = Some s' \<and>
                (case executeWithReplay sid (attempt sid ev) w of
                   (Inr u, w1) \<Rightarrow>
                     events s' = events s @ [stamp (clock w1 (tick w1)) ev] \<and>
                     fst (perform sid op w) = Inr (buildCartFromEvents (taxRate w) sid (events s'))
                 | (Inl e, w1) \<Rightarrow>
                     events s' = events s \<and> perform sid op w = (Inl e, w1)))"
proof (cases "resolve (checkedOut s) sid (fold_items (events s)) op")
  case (Inl e)
  with perform_resolve [OF assms, of op] show ?thesis by simp
next
  case (Inr ev)
  obtain r1 w1 where ex: "executeWithReplay sid (attempt sid ev) w = (r1, w1)"
    by (cases "executeWithReplay sid (attempt sid ev) w")
  from event_like [OF assms Inr ex] Inr ex show ?thesis
    by (cases r1) auto
qed

theorem event_appended_iff_backend_succeeded_witness:
  "fst (perform 0 (AddItem item_B) (after_A one_gap)) =
     Inr \<lparr>sessionId = 0,
        items = [\<lparr>item_id = ''A'', item_type = ''DEVICE'', item_name = ''Phone'', price = 100, quantity = 2\<rparr>,
                 \<lparr>item_id = ''B'', item_type = ''PLAN'', item_name = ''Plan'', price = 50, quantity = 1\<rparr>],
        subtotal = 250, tax = 25, total = 275\<rparr> \<and>
   map_option events (sessions (snd (perform 0 (AddItem item_B) (after_A one_gap))) 0) =
     Some [ITEM_ADDED ''A'' ''DEVICE'' ''Phone'' 100 2 0, ITEM_ADDED ''B'' ''PLAN'' ''Plan'' 50 1 1000] \<and>
   fst (perform 0 (AddItem item_B) (after_A two_gaps)) = Inl (ContextExpiredError 2) \<and>
   map_option events (sessions (snd (perform 0 (AddItem item_B) (after_A two_gaps))) 0) =
     Some [ITEM_ADDED ''A'' ''DEVICE'' ''Phone'' 100 2 0]"
  using event_appended_iff_backend_succeeded [of "after_A one_gap" 0
      "the (sessions (after_A one_gap) 0)" "AddItem item_B"]
    event_appended_iff_backend_succeeded [of "after_A two_gaps" 0
      "the (sessions (after_A two_gaps) 0)" "AddItem item_B"]
  by (simp add: scenario_defs)

text \<open>
  Claim C6. For removeItem on a session that exists and is not completed, with no quantity
  or a quantity greater than zero: if the item is absent from the current projection the
  call fails with item-not-found and the state is untouched; otherwise the backend remove
  is issued with the minimum of the requested quantity (the current quantity when none is
  given) and the current quantity, a call that returns a cart has appended an ITEM_REMOVED
  event with that amount and returns the projection of the new log, from which the item
  is absent when the requested quantity is at least the current one, and a call that
  fails leaves the log as it was. When the backend handle is in step with the log the call
  either succeeds or fails with the context-expired error.
\<close>

theorem removeItem_resolves_quantity:
  assumes "sessions w sid = Some s" and "\<not> checkedOut s" and "qty = None \<or> 0 < the qty"
  shows "(get_item k (items (buildCartFromEvents (taxRate w) sid (events s))) = None \<longrightarrow>
            removeItem sid k qty w = (Inl (ItemNotFoundError k), w)) \<and>
         (\<forall>cur. get_item k (items (buildCartFromEvents (taxRate w) sid (events s))) = Some cur \<longrightarrow>
            removeItem sid k qty w =
              bindE (executeWithReplay sid
                       (bindE (ensureSfContext sid) (\<lambda>c.
                          sf_removeItem c k
                            (Some (case qty of None \<Rightarrow> quantity cur | Some q \<Rightarrow> min q (quantity cur))))))
                (\<lambda>_. commit sid
                   (ITEM_REMOVED k (case qty of None \<Rightarrow> quantity cur | Some q \<Rightarrow> min q (quantity cur)) 0)) w \<and>
            (\<exists>s'. sessions (snd (removeItem sid k qty w)) sid = Some s' \<and>
               (case fst (removeItem sid k qty w) of
                  Inr cart \<Rightarrow>
                    (\<exists>ts. events s' = events s @
                       [ITEM_REMOVED k (case qty of None \<Rightarrow> quantity cur | Some q \<Rightarrow> min q (quantity cur)) ts]) \<and>
                    cart = buildCartFromEvents (taxRate w) sid (events s') \<and>
                    (qty = None \<or> the qty \<ge> quantity cur \<longrightarrow> get_item k (items cart) = None)
                | Inl e \<Rightarrow> events s' = events s)) \<and>
            (sync_with w sid (fold_items (events s)) \<longrightarrow>
               is_expired (fst (removeItem sid k qty w)) \<or>
               (\<exists>cart. fst (removeItem sid k qty w) = Inr cart)))"
proof (intro conjI impI allI)
  assume "get_item k (items (buildCartFromEvents (taxRate w) sid (events s))) = None"
  with assms perform_resolve [OF assms(1), of "RemoveItem k qty"]
  show "removeItem sid k qty w = (Inl (ItemNotFoundError k), w)"
    by (auto simp: resolve_def)
next
  fix cur
  assume cur: "get_item k (items (buildCartFromEvents (taxRate w) sid (events s))) = Some cur"
  define n where "n = (case qty of None \<Rightarrow> quantity cur | Some q \<Rightarrow> min q (quantity cur))"
  have res: "resolve (checkedOut s) sid (fold_items (events s)) (RemoveItem k qty) = Inr (ITEM_REMOVED k n 0)"
    using assms cur by (auto simp: resolve_def n_def)
  with perform_resolve [OF assms(1), of "RemoveItem k qty"]
  show "removeItem sid k qty w =
              bindE (executeWithReplay sid
                       (bindE (ensureSfContext sid) (\<lambda>c.
                          sf_removeItem c k
                            (Some (case qty of None \<Rightarrow> quantity cur | Some q \<Rightarrow> min q (quantity cur))))))
                (\<lambda>_. commit sid
                   (ITEM_REMOVED k (case qty of None \<Rightarrow> quantity cur | Some q \<Rightarrow> min q (quantity cur)) 0)) w"
    by (simp add: attempt_def n_def)
  have full: "qty = None \<or> the qty \<ge> quantity cur \<Longrightarrow> n \<ge> quantity cur"
    by (cases qty) (auto simp: n_def)
  have gone: "\<And>ts. n \<ge> quantity cur \<Longrightarrow>
      get_item k (fold_items (events s @ [ITEM_REMOVED k n ts])) = None"
    using cur by (simp add: fold_items_snoc get_item_delete_same)
  obtain r1 w1 where ex: "executeWithReplay sid (attempt sid (ITEM_REMOVED k n 0)) w = (r1, w1)"
    by (cases "executeWithReplay sid (attempt sid (ITEM_REMOVED k n 0)) w")
  from event_like [OF assms(1) res ex]
  show "\<exists>s'. sessions (snd (removeItem sid k qty w)) sid = Some s' \<and>
               (case fst (removeItem sid k qty w) of
                  Inr cart \<Rightarrow>
                    (\<exists>ts. events s' = events s @
                       [ITEM_REMOVED k (case qty of None \<Rightarrow> quantity cur | Some q \<Rightarrow> min q (quantity cur)) ts]) \<and>
                    cart = buildCartFromEvents (taxRate w) sid (events s') \<and>
                    (qty = None \<or> the qty \<ge> quantity cur \<longrightarrow> get_item k (items cart) = None)
                | Inl e \<Rightarrow> events s' = events s)"
    using full gone unfolding n_def [symmetric]
    by (cases r1) auto
  assume sync: "sync_with w sid (fold_items (events s))"
  obtain r w' where run: "perform sid (RemoveItem k qty) w = (r, w')"
    by (cases "perform sid (RemoveItem k qty) w")
  show "is_expired (fst (removeItem sid k qty w)) \<or> (\<exists>cart. fst (removeItem sid k qty w) = Inr cart)"
  proof (cases "is_expired r")
    case True
    with run show ?thesis by simp
  next
    case False
    from perform_effect [OF assms(1) sync run False] res run show ?thesis by auto
  qed
qed

theorem removeItem_resolves_quantity_witness:
  "fst (removeItem 0 ''Z'' None (after_A quiet)) = Inl (ItemNotFoundError ''Z'') \<and>
   fst (removeItem 0 ''A'' (Some 1) (after_A quiet)) =
     Inr \<lparr>sessionId = 0,
        items = [\<lparr>item_id = ''A'', item_type = ''DEVICE'', item_name = ''Phone'', price = 100, quantity = 1\<rparr>],
        subtotal = 100, tax = 10, total = 110\<rparr> \<and>
   fst (removeItem 0 ''A'' (Some 5) (after_A quiet)) =
     Inr \<lparr>sessionId = 0, items = [], subtotal = 0, tax = 0, total = 0\<rparr> \<and>
   map_option events (sessions (snd (removeItem 0 ''A'' (Some 5) (after_A quiet))) 0) =
     Some [ITEM_ADDED ''A'' ''DEVICE'' ''Phone'' 100 2 0, ITEM_REMOVED ''A'' 2 0]"
  using removeItem_resolves_quantity [of "after_A quiet" 0 "the (sessions (after_A quiet) 0)"
      "Some 5" "''A''"]
    removeItem_resolves_quantity [of "after_A quiet" 0 "the (sessions (after_A quiet) 0)"
      "Some 1" "''A''"]
    removeItem_resolves_quantity [of "after_A quiet" 0 "the (sessions (after_A quiet) 0)"
      None "''Z''"]
  by (simp add: scenario_defs)

section \<open>Replay equivalence\<close>




section \<open>Completed sessions\<close>

text \<open>
  Claim C8. On a completed session addItem, removeItem, updateItem and checkout all fail
  and leave the state, in particular the log, as it was, checkout with SessionCompleted. A
  checkout of an active session with an empty projection fails with EmptyCart. A
  checkout that succeeds was made on an active session, leaves it completed with the same
  log, and a second checkout then fails with SessionCompleted. No addItem, removeItem or
  updateItem on any session changes a completed flag, and a checkout on any session never
  resets one; a flag that a checkout sets belongs to the session checked out, and that
  checkout succeeded.
\<close>

theorem completed_is_terminal:
  assumes "sessions w sid = Some s"
  shows "(checkedOut s \<longrightarrow>
            (\<exists>e. perform sid op w = (Inl e, w)) \<and>
            checkout sid w = (Inl (SessionCompletedError sid), w)) \<and>
         (\<not> checkedOut s \<and> items (buildCartFromEvents (taxRate w) sid (events s)) = [] \<longrightarrow>
            checkout sid w = (Inl EmptyCartError, w)) \<and>
         (\<forall>res. fst (checkout sid w) = Inr res \<longrightarrow>
            \<not> checkedOut s \<and>
            (\<exists>s'. sessions (snd (checkout sid w)) sid = Some s' \<and> checkedOut s' \<and>
               events s' = events s) \<and>
            fst (checkout sid (snd (checkout sid w))) = Inl (SessionCompletedError sid)) \<and>
         (\<forall>sid' op'. \<exists>s'. sessions (snd (perform sid' op' w)) sid = Some s' \<and>
            checkedOut s' = checkedOut s) \<and>
         (\<forall>sid'. \<exists>s'. sessions (snd (checkout sid' w)) sid = Some s' \<and>
            (checkedOut s \<longrightarrow> checkedOut s') \<and>
            (checkedOut s' \<and> \<not> checkedOut s \<longrightarrow>
               sid' = sid \<and> (\<exists>res. fst (checkout sid' w) = Inr res)))"
proof (intro conjI impI allI)
  assume c: "checkedOut s"
  have "\<exists>e. resolve (checkedOut s) sid (fold_items (events s)) op = Inl e"
    using c by (cases op) (auto simp: resolve_def split: option.splits)
  with perform_resolve [OF assms, of op] show "\<exists>e. perform sid op w = (Inl e, w)" by auto
  from c show "checkout sid w = (Inl (SessionCompletedError sid), w)"
    by (rule checkout_completed [OF assms])
next
  assume "\<not> checkedOut s \<and> items (buildCartFromEvents (taxRate w) sid (events s)) = []"
  then show "checkout sid w = (Inl EmptyCartError, w)"
    using checkout_empty [OF assms] by simp
next
  fix res
  assume r: "fst (checkout sid w) = Inr res"
  from checkout_success [OF assms r]
  show "\<not> checkedOut s"
    and "\<exists>s'. sessions (snd (checkout sid w)) sid = Some s' \<and> checkedOut s' \<and> events s' = events s"
    and "fst (checkout sid (snd (checkout sid w))) = Inl (SessionCompletedError sid)"
    by simp_all
next
  fix sid' op'
  show "\<exists>s'. sessions (snd (perform sid' op' w)) sid = Some s' \<and> checkedOut s' = checkedOut s"
    by (rule perform_flags [OF assms])
next
  fix sid'
  from checkout_flags [OF assms, of sid']
  show "\<exists>s'. sessions (snd (checkout sid' w)) sid = Some s' \<and>
            (checkedOut s \<longrightarrow> checkedOut s') \<and>
            (checkedOut s' \<and> \<not> checkedOut s \<longrightarrow>
               sid' = sid \<and> (\<exists>res. fst (checkout sid' w) = Inr res))"
    by blast
qed

theorem completed_is_terminal_witness:
  "map_option checkedOut (sessions (after_A quiet) 0) = Some False \<and>
   fst (checkout 0 (after_A quiet)) =
     Inr \<lparr>sessionId = 0,
        items = [\<lparr>item_id = ''A'', item_type = ''DEVICE'', item_name = ''Phone'', price = 100, quantity = 2\<rparr>],
        subtotal = 200, tax = 20, total = 220, orderId = 2, status = ''COMPLETED''\<rparr> \<and>
   map_option checkedOut (sessions checked_out 0) = Some True \<and>
   fst (checkout 0 checked_out) = Inl (SessionCompletedError 0) \<and>
   fst (perform 0 (AddItem item_B) checked_out) = Inl (SessionCompletedError 0) \<and>
   fst (perform 0 (RemoveItem ''A'' None) checked_out) = Inl (SessionCompletedError 0) \<and>
   fst (perform 0 (UpdateItem ''A'' 7) checked_out) = Inl (SessionCompletedError 0) \<and>
   map_option events (sessions (snd (perform 0 (AddItem item_B) checked_out)) 0) =
     Some [ITEM_ADDED ''A'' ''DEVICE'' ''Phone'' 100 2 0] \<and>
   fst (checkout 0 (scenario_world quiet)) = Inl EmptyCartError"
  using completed_is_terminal [of checked_out 0 "the (sessions checked_out 0)" "AddItem item_B"]
    completed_is_terminal [of "after_A quiet" 0 "the (sessions (after_A quiet) 0)"]
    completed_is_terminal [of "scenario_world quiet" 0 "the (sessions (scenario_world quiet) 0)"]
  by (simp add: scenario_defs)

text \<open>
  Claim C9, as amended. On a completed session checkout fails with SessionCompleted at
  once; addItem, removeItem and updateItem validate their arguments first, so a request
  that fails validation yields InvalidQuantity and a request that passes it yields
  SessionCompleted. In every case the state, the backend included, is untouched.
\<close>

theorem completed_check_after_validation:
  assumes "sessions w sid = Some s" and "checkedOut s"
  shows "checkout sid w = (Inl (SessionCompletedError sid), w) \<and>
         addItem sid request w =
           (case validateAddItemRequest request of
              Some e \<Rightarrow> (Inl e, w)
            | None \<Rightarrow> (Inl (SessionCompletedError sid), w)) \<and>
         removeItem sid itemId qty w =
           (if qty \<noteq> None \<and> the qty \<le> 0
            then (Inl (InvalidQuantityError ''Quantity must be positive''), w)
            else (Inl (SessionCompletedError sid), w)) \<and>
         updateItem sid itemId n w =
           (if n \<le> 0 then (Inl (InvalidQuantityError ''Quantity must be positive''), w)
            else (Inl (SessionCompletedError sid), w))"
  using assms
  by (simp add: checkout_completed addItem_def removeItem_def updateItem_def throw_def
      bindE_def [of "isCheckedOut sid"] isCheckedOut_eq split: option.splits)

theorem completed_check_after_validation_witness:
  "map_option checkedOut (sessions checked_out 0) = Some True \<and>
   fst (checkout 0 checked_out) = Inl (SessionCompletedError 0) \<and>
   fst (addItem 0 item_B checked_out) = Inl (SessionCompletedError 0) \<and>
   fst (removeItem 0 ''A'' (Some 1) checked_out) = Inl (SessionCompletedError 0) \<and>
   fst (updateItem 0 ''A'' 3 checked_out) = Inl (SessionCompletedError 0)"
  using completed_check_after_validation [of checked_out 0 "the (sessions checked_out 0)"
      item_B "''A''" "Some 1" 3]
  by (simp add: scenario_defs)

text \<open>The claim as stated fails: an invalid request against a completed session is
  answered with InvalidQuantity, not with SessionCompleted.\<close>

theorem validation_first_counterexample:
  "map_option checkedOut (sessions checked_out 0) = Some True \<and>
   fst (addItem 0 (item_B\<lparr>req_quantity := 0\<rparr>) checked_out) =
     Inl (InvalidQuantityError ''Quantity must be a positive number'') \<and>
   fst (removeItem 0 ''A'' (Some 0) checked_out) =
     Inl (InvalidQuantityError ''Quantity must be positive'') \<and>
   fst (updateItem 0 ''A'' 0 checked_out) =
     Inl (InvalidQuantityError ''Quantity must be positive'')"
  by (simp add: scenario_defs)

end
